theory Spec2Isabelle
  imports Complex_Main "HOL-Library.Sublist" "HOL-Library.Multiset"
begin

section \<open>Custom\_Chatbot.ipynb: a retrieval-augmented question-answering notebook\<close>

text \<open>
  The notebook loads the Wikipedia page "2024" as a list of passages, embeds each passage
  through a remote service, saves the passages with their embeddings to a file and loads
  them from it, ranks the passages by cosine distance to the embedding of a question, packs
  the nearest ones into a prompt under a token budget and sends the prompt to a completion
  service.

  Python strings are modelled as \<^typ>\<open>string\<close>, the UTF-8 bytes of the text: substring
  tests, \<open>startswith\<close>, \<open>split\<close> on a newline and concatenation agree on bytes and on code
  points. The remote services, the tokenizer of \<open>tiktoken\<close> and the date parser of
  \<open>dateutil\<close> are not part of the notebook: they are parameters of the functions below.
  An exception is a value of \<open>error\<close>, returned as \<open>Inl\<close>.
\<close>

datatype error = OpenAIError | KeyError | IndexError | ValueError | EOFError

subsection \<open>Strings\<close>

definition startswith :: "string \<Rightarrow> string \<Rightarrow> bool" where
  \<comment> \<open>\<open>s.startswith(p)\<close>\<close>
  "startswith s p = (take (length p) s = p)"

fun contains :: "string \<Rightarrow> string \<Rightarrow> bool" where
  \<comment> \<open>\<open>contains sub s\<close> is Python's \<open>sub in s\<close>\<close>
  "contains sub [] = (sub = [])"
| "contains sub (c # s) = (startswith (c # s) sub \<or> contains sub s)"

fun split_lines :: "string \<Rightarrow> string list" where
  \<comment> \<open>\<open>s.split("\n")\<close>: never empty, \<open>"".split("\n") == [""]\<close>\<close>
  "split_lines [] = [[]]"
| "split_lines (c # s) =
     (if c = CHR ''\<newline>'' then [] # split_lines s
      else (case split_lines s of [] \<Rightarrow> [[c]] | l # ls \<Rightarrow> (c # l) # ls))"

fun join :: "string \<Rightarrow> string list \<Rightarrow> string" where
  \<comment> \<open>\<open>sep.join(xs)\<close>\<close>
  "join sep [] = []"
| "join sep [x] = x"
| "join sep (x # y # ys) = x @ sep @ join sep (y # ys)"

fun format_str :: "string \<Rightarrow> string list \<Rightarrow> error + string" where
  \<comment> \<open>\<open>template.format(*args)\<close> for a template whose only braces are \<open>{}\<close> fields, as the
      notebook's template is: each \<open>{}\<close> takes the next argument, and a field with no argument
      left raises IndexError. The arguments are inserted as they are, braces in them are not
      read. Escapes and named or numbered fields are not modelled.\<close>
  "format_str [] args = Inr []"
| "format_str (c # s) args =
     (if c = CHR ''{'' \<and> take 1 s = ''}'' then
        (case args of
           [] \<Rightarrow> Inl IndexError
         | a # args' \<Rightarrow>
             (case format_str (tl s) args' of Inl e \<Rightarrow> Inl e | Inr r \<Rightarrow> Inr (a @ r)))
      else (case format_str s args of Inl e \<Rightarrow> Inl e | Inr r \<Rightarrow> Inr (c # r)))"

definition white_space :: "string list" where
  \<comment> \<open>The characters that \<open>str.isspace\<close> accepts, in UTF-8: U+0009 to U+000D, U+001C to
      U+0020, U+0085, U+00A0, U+1680, U+2000 to U+200A, U+2028, U+2029, U+202F, U+205F and
      U+3000.\<close>
  "white_space =
     map (\<lambda>c. [c]) [CHR 0x09, CHR ''\<newline>'', CHR 0x0B, CHR 0x0C, CHR 0x0D,
                     CHR 0x1C, CHR 0x1D, CHR 0x1E, CHR 0x1F, CHR '' ''] @
     [[CHR 0xC2, CHR 0x85], [CHR 0xC2, CHR 0xA0], [CHR 0xE1, CHR 0x9A, CHR 0x80]] @
     map (\<lambda>c. [CHR 0xE2, CHR 0x80, c])
       [CHR 0x80, CHR 0x81, CHR 0x82, CHR 0x83, CHR 0x84, CHR 0x85, CHR 0x86, CHR 0x87,
        CHR 0x88, CHR 0x89, CHR 0x8A, CHR 0xA8, CHR 0xA9, CHR 0xAF] @
     [[CHR 0xE2, CHR 0x81, CHR 0x9F], [CHR 0xE3, CHR 0x80, CHR 0x80]]"

function strip_left :: "string list \<Rightarrow> string \<Rightarrow> string" where
  \<comment> \<open>\<open>s\<close> without the leading characters that are among \<open>chars\<close>, each a byte sequence\<close>
  "strip_left chars s =
     (case find (\<lambda>q. q \<noteq> [] \<and> startswith s q) chars of
        None \<Rightarrow> s
      | Some q \<Rightarrow> strip_left chars (drop (length q) s))"
  by pat_completeness auto
termination
proof (relation "measure (\<lambda>(chars, s). length s)")
  show "wf (measure (\<lambda>(chars, s). length s))" by simp
next
  fix chars :: "string list" and s q :: string
  assume "find (\<lambda>q. q \<noteq> [] \<and> startswith s q) chars = Some q"
  then have "q \<noteq> []" and "take (length q) s = q"
    by (auto simp: find_Some_iff startswith_def)
  then have "s \<noteq> []" by auto
  with \<open>q \<noteq> []\<close> show "((chars, drop (length q) s), (chars, s)) \<in> measure (\<lambda>(chars, s). length s)"
    by simp
qed

declare strip_left.simps [simp del]

definition lstrip :: "string \<Rightarrow> string" where
  \<comment> \<open>\<open>s.lstrip()\<close>\<close>
  "lstrip s = strip_left white_space s"

definition rstrip :: "string \<Rightarrow> string" where
  \<comment> \<open>\<open>s.rstrip()\<close>: the characters are matched from the end, on the reversed bytes\<close>
  "rstrip s = rev (strip_left (map rev white_space) (rev s))"

definition strip :: "string \<Rightarrow> string" where
  \<comment> \<open>\<open>s.strip()\<close>: leading and trailing white space removed, Unicode white space included\<close>
  "strip s = rstrip (lstrip s)"

definition lower_char :: "char \<Rightarrow> char" where
  "lower_char c =
     (let n = (of_char c :: nat) in if 65 \<le> n \<and> n \<le> 90 then char_of (n + 32) else c)"

definition lower :: "string \<Rightarrow> string" where
  \<comment> \<open>\<open>s.lower()\<close>, for ASCII letters\<close>
  "lower s = map lower_char s"

subsection \<open>Corpus loader: \<open>load_dataset\<close>\<close>

definition dash :: string where
  \<comment> \<open>the separator of date and text: a space, the en dash U+2013 (E2 80 93 in UTF-8), a space\<close>
  "dash = [CHR '' '', CHR 0xE2, CHR 0x80, CHR 0x93, CHR '' '']"

definition keep_line :: "string \<Rightarrow> bool" where
  \<comment> \<open>\<open>(df["text"].str.len() > 0) & (~df["text"].str.startswith("=="))\<close>\<close>
  "keep_line t = (length t > 0 \<and> \<not> startswith t ''=='')"

fun prefix_rows :: "(string \<Rightarrow> bool) \<Rightarrow> string \<Rightarrow> string list \<Rightarrow> string list" where
  \<comment> \<open>The loop over \<open>df.iterrows()\<close>, carrying \<open>prefix\<close> (here \<open>pre\<close>). \<open>parse t\<close> tells whether
      \<open>dateutil.parser.parse(t)\<close> returns; the bare \<open>except\<close> takes every failure. The write
      \<open>row["text"] = ...\<close> reaches the frame (one column of one dtype, no copy-on-write).\<close>
  "prefix_rows parse pre [] = []"
| "prefix_rows parse pre (t # ts) =
     (if \<not> contains dash t then
        (if parse t then t # prefix_rows parse t ts
         else (pre @ dash @ t) # prefix_rows parse pre ts)
      else t # prefix_rows parse pre ts)"

definition load_dataset :: "(string \<Rightarrow> bool) \<Rightarrow> string \<Rightarrow> string list" where
  \<comment> \<open>\<open>extract\<close> is the page text that the HTTP request returns; the result is the
      \<open>text\<close> column of the returned frame.\<close>
  "load_dataset parse extract =
     (let df = split_lines extract;
          df = filter keep_line df;
          df = prefix_rows parse [] df
      in filter (contains dash) df)"

subsection \<open>Distances\<close>

text \<open>
  \<open>distances_from_embeddings(q, embeddings, distance_metric="cosine")\<close> of
  \<open>openai.embeddings_utils\<close> applies \<open>scipy.spatial.distance.cosine\<close> to \<open>q\<close> and each
  embedding in turn. Floating-point numbers are idealised: a float is a real number or NaN,
  and rounding is left out. The quotient \<open>0.0 / 0.0\<close> that a zero vector produces is NaN (with
  a warning, not an exception); vectors of different lengths raise ValueError.

  What \<open>cosine\<close> returns for that NaN depends on the release of \<open>scipy\<close>, which is a
  parameter: most releases return the distance as computed (the absolute value or clipping
  that they apply against rounding changes nothing here), and some return
  \<open>max(0, min(d, 2.0))\<close>, which for NaN is 0, since no comparison with NaN holds.

  The function \<open>cosine\<close> below is this idealised distance. The ranker does not depend on it:
  it takes the metric as it is computed in double precision, rounding, overflow and
  underflow included, as a parameter (\<open>cosine_metric\<close> of the libraries, further down), and
  \<open>cosine\<close> is the instance used to evaluate the ranker on inputs where both agree.
\<close>

datatype fl = Num real | NaN

datatype scipy_release = Unclamped | Clamped

fun clamp :: "fl \<Rightarrow> fl" where
  \<comment> \<open>Python's \<open>max(0, min(d, 2.0))\<close>\<close>
  "clamp NaN = Num 0"
| "clamp (Num x) = Num (max 0 (min x 2))"

definition dot :: "real list \<Rightarrow> real list \<Rightarrow> real" where
  "dot u v = sum_list (map2 (*) u v)"

definition cosine :: "scipy_release \<Rightarrow> real list \<Rightarrow> real list \<Rightarrow> error + fl" where
  "cosine scipy u v =
     (if length u \<noteq> length v then Inl ValueError
      else let uv = dot u v; uu = dot u u; vv = dot v v;
               d = (if uu * vv = 0 then NaN else Num (1 - uv / sqrt (uu * vv)))
           in Inr (case scipy of Unclamped \<Rightarrow> d | Clamped \<Rightarrow> clamp d))"

fun distances_from_embeddings ::
  "(real list \<Rightarrow> real list \<Rightarrow> error + fl) \<Rightarrow> real list \<Rightarrow> real list list \<Rightarrow> error + fl list" where
  \<comment> \<open>\<open>[distance_metric(q, e) for e in embeddings]\<close>, the metric being the function that
      the name \<open>"cosine"\<close> selects\<close>
  "distances_from_embeddings distance_metric q [] = Inr []"
| "distances_from_embeddings distance_metric q (e # es) =
     (case distance_metric q e of
        Inl x \<Rightarrow> Inl x
      | Inr d \<Rightarrow>
          (case distances_from_embeddings distance_metric q es of
             Inl x \<Rightarrow> Inl x
           | Inr ds \<Rightarrow> Inr (d # ds)))"

subsection \<open>Data frames\<close>

text \<open>
  A frame of the notebook has the columns \<open>text\<close> and \<open>embeddings\<close> and, once ranked, the
  column \<open>distance\<close>. Frames are objects: the functions receive references to them, and
  column assignment changes the object. The state of the program is the list of the frames
  allocated so far, a reference being a position in it, and the lines printed so far.
\<close>

record row =
  r_text :: string
  r_embeddings :: "real list"

record frame =
  rows :: "row list"
  distance :: "fl list option"

record world =
  heap :: "frame list"
  out :: "string list"

definition print :: "string \<Rightarrow> world \<Rightarrow> world" where
  "print s w = w\<lparr>out := out w @ [s]\<rparr>"

definition alloc :: "frame \<Rightarrow> world \<Rightarrow> nat \<times> world" where
  "alloc f w = (length (heap w), w\<lparr>heap := heap w @ [f]\<rparr>)"

definition copy :: "nat \<Rightarrow> world \<Rightarrow> nat \<times> world" where
  \<comment> \<open>\<open>df.copy()\<close>: a new frame with the same rows and columns\<close>
  "copy df w = alloc (heap w ! df) w"

definition set_distance :: "nat \<Rightarrow> fl list \<Rightarrow> world \<Rightarrow> world" where
  \<comment> \<open>\<open>df['distance'] = ds\<close>: changes the frame that \<open>df\<close> refers to\<close>
  "set_distance df ds w = w\<lparr>heap := (heap w)[df := (heap w ! df)\<lparr>distance := Some ds\<rparr>]\<rparr>"

definition py_head :: "int \<Rightarrow> 'a list \<Rightarrow> 'a list" where
  \<comment> \<open>the first \<open>n\<close> elements; for negative \<open>n\<close>, all but the last \<open>-n\<close>\<close>
  "py_head n xs = (if 0 \<le> n then take (nat n) xs else take (length xs - nat (- n)) xs)"

definition head :: "int \<Rightarrow> frame \<Rightarrow> frame" where
  \<comment> \<open>\<open>df.head(n)\<close>\<close>
  "head n f = \<lparr>rows = py_head n (rows f), distance = map_option (py_head n) (distance f)\<rparr>"

definition is_nan :: "fl \<Rightarrow> bool" where
  "is_nan d = (d = NaN)"

fun num :: "fl \<Rightarrow> real" where
  "num (Num r) = r"
| "num NaN = 0"

text \<open>
  What the ranker takes from \<open>scipy\<close> and \<open>pandas\<close>, and what differs between their
  releases, are parameters:
  \<^item> \<open>cosine_metric\<close> is \<open>scipy.spatial.distance.cosine\<close> as the installed release computes
    it on doubles (the embeddings are doubles, which are real numbers), with its rounding,
    for the results that are a number or NaN; an infinite result, which underflow of the
    norms can produce, has no counterpart in \<open>fl\<close>;
  \<^item> \<open>sort_values\<close> is the default sort of \<open>Series.sort_values\<close> on rows without NaN,
    ascending; the sort behind it (numpy's quicksort) need not keep equal values in their
    original order;
  \<^item> \<open>keeps_nan_rows\<close> tells whether \<open>nsmallest\<close> puts the rows whose value is NaN after
    the others, as current releases of \<open>pandas\<close> do, or drops them, as old ones did.
\<close>

record libraries =
  cosine_metric :: "real list \<Rightarrow> real list \<Rightarrow> error + fl"
  sort_values :: "(row \<times> fl) list \<Rightarrow> (row \<times> fl) list"
  keeps_nan_rows :: bool

definition nsmallest_rows :: "libraries \<Rightarrow> int \<Rightarrow> (row \<times> fl) list \<Rightarrow> (row \<times> fl) list" where
  \<comment> \<open>pandas' \<open>nsmallest(n, column)\<close> with \<open>keep='first'\<close> on rows paired with the column's
      values. Nothing for \<open>n \<le> 0\<close>. The rows with NaN are set aside. When \<open>n\<close> is at
      least the number of rows, the others are sorted with \<open>sort_values\<close>; otherwise the
      \<open>n\<close> smallest are selected and sorted with a stable sort, so that equal values stay in
      their original order and the earliest are taken. The rows with NaN follow, when they
      are kept, and the first \<open>n\<close> rows are returned.\<close>
  "nsmallest_rows libs n ps =
     (if n \<le> 0 then []
      else let dropped = filter (\<lambda>p. \<not> is_nan (snd p)) ps;
               nan_rows = (if keeps_nan_rows libs then filter (\<lambda>p. is_nan (snd p)) ps else []);
               ranked = (if int (length ps) \<le> n then sort_values libs dropped
                         else sort_key (num \<circ> snd) dropped)
           in take (nat n) (ranked @ nan_rows))"

definition nsmallest :: "libraries \<Rightarrow> int \<Rightarrow> frame \<Rightarrow> error + frame" where
  \<comment> \<open>\<open>df.nsmallest(n, 'distance')\<close>; KeyError without the column\<close>
  "nsmallest libs n f =
     (case distance f of
        None \<Rightarrow> Inl KeyError
      | Some ds \<Rightarrow>
          (let sel = nsmallest_rows libs n (zip (rows f) ds)
           in Inr \<lparr>rows = map fst sel, distance = Some (map snd sel)\<rparr>))"

subsection \<open>Ranker: \<open>get_relevant_rows\<close>\<close>

text \<open>
  A call to a remote service raises or returns a response. A response of the embedding
  service may have the key \<open>data\<close>, a list; an element of the list may have the key
  \<open>embedding\<close>. The service is a parameter \<open>embedding_create\<close> from the input text to the
  outcome.
\<close>

datatype 'r call = Raises | Returns 'r

record embedding_response =
  resp_data :: "real list option list option"

definition no_data_warning :: string where
  \<comment> \<open>the printed warning, without the response that the f-string appends\<close>
  "no_data_warning =
     ''Warning: 'data' key not found or empty in question embedding response. Response: ''"

definition get_relevant_rows ::
  "libraries \<Rightarrow> (string \<Rightarrow> embedding_response call) \<Rightarrow> string \<Rightarrow> nat \<Rightarrow> int \<Rightarrow>
   world \<Rightarrow> (error + nat) \<times> world" where
  "get_relevant_rows libs embedding_create question df top_n w =
     (case embedding_create question of
        Raises \<Rightarrow> (Inl OpenAIError, w)
      | Returns question_embedding \<Rightarrow>
          (case resp_data question_embedding of
             Some (item # _) \<Rightarrow>
               (case item of
                  None \<Rightarrow> (Inl KeyError, w)
                | Some qe \<Rightarrow>
                    (let (df_copy, w1) = copy df w
                     in case distances_from_embeddings (cosine_metric libs) qe
                               (map r_embeddings (rows (heap w1 ! df_copy))) of
                          Inl e \<Rightarrow> (Inl e, w1)
                        | Inr ds \<Rightarrow>
                            (let w2 = set_distance df_copy ds w1
                             in case nsmallest libs top_n (heap w2 ! df_copy) of
                                  Inl e \<Rightarrow> (Inl e, w2)
                                | Inr f \<Rightarrow> (let (r, w3) = alloc f w2 in (Inr r, w3)))))
           | _ \<Rightarrow>
               (let w1 = print no_data_warning w;
                    (r, w2) = alloc (head top_n (heap w1 ! df)) w1
                in (Inr r, w2))))"

subsection \<open>Prompt composer: \<open>create_prompt\<close>\<close>

text \<open>
  The tokenizer is \<open>tiktoken.get_encoding("cl100k_base")\<close>; its \<open>encode\<close> is a parameter that
  returns the tokens of a text or raises (by default it raises ValueError on a text that
  holds a special token such as \<open><|endoftext|>\<close>).
\<close>

type_synonym tokenizer = "string \<Rightarrow> error + nat list"

definition prompt_template :: string where
  \<open>prompt_template =
    ''\<newline>    Answer the question based on the context below. If the question can't be answered based on the context, say "I don't know."\<newline>\<newline>    Context: {}\<newline>\<newline>    ---\<newline>\<newline>    Question: {}\<newline>\<newline>    Answer:\<newline>    ''\<close>

definition context_separator :: string where
  "context_separator = ''\<newline>\<newline>###\<newline>\<newline>''"

fun pack_context ::
  "tokenizer \<Rightarrow> int \<Rightarrow> int \<Rightarrow> string list \<Rightarrow> string list \<Rightarrow> error + string list" where
  \<comment> \<open>the loop of \<open>create_prompt\<close> over \<open>df["text"].values\<close>, from \<open>current_token_count\<close>
      and \<open>context\<close>; \<open>break\<close> returns the context collected so far\<close>
  "pack_context tokenizer max_token_count current_token_count context [] = Inr context"
| "pack_context tokenizer max_token_count current_token_count context (t # ts) =
     (case tokenizer t of
        Inl e \<Rightarrow> Inl e
      | Inr toks \<Rightarrow>
          (let tokens_in_text = int (length toks)
           in if current_token_count + tokens_in_text \<le> max_token_count
              then pack_context tokenizer max_token_count
                     (current_token_count + tokens_in_text) (context @ [t]) ts
              else Inr context))"

definition create_prompt :: "tokenizer \<Rightarrow> string \<Rightarrow> frame \<Rightarrow> int \<Rightarrow> error + string" where
  "create_prompt tokenizer question df max_token_count =
     (case tokenizer prompt_template of
        Inl e \<Rightarrow> Inl e
      | Inr tt \<Rightarrow>
          (case tokenizer question of
             Inl e \<Rightarrow> Inl e
           | Inr tq \<Rightarrow>
               (let current_token_count = int (length tt) + int (length tq)
                in case pack_context tokenizer max_token_count current_token_count []
                          (map r_text (rows df)) of
                     Inl e \<Rightarrow> Inl e
                   | Inr context \<Rightarrow>
                       format_str prompt_template [join context_separator context, question])))"

subsection \<open>Answering: \<open>get_openai_answer\<close>, \<open>answer_question_with_context\<close>, the loop\<close>

text \<open>
  A response of the completion service may have the key \<open>choices\<close>, a list; an element may
  have the key \<open>text\<close>. The service is a parameter \<open>completion_create\<close> from the prompt and
  \<open>max_tokens\<close> to the outcome. The message of a caught exception is left out of the
  printed line.
\<close>

record completion_response =
  resp_choices :: "string option list option"

definition no_choices_warning :: string where
  "no_choices_warning = ''Warning: 'choices' key not found or empty in response. Response: ''"

definition get_openai_answer ::
  "(string \<Rightarrow> int \<Rightarrow> completion_response call) \<Rightarrow> string \<Rightarrow> int \<Rightarrow> world \<Rightarrow>
   string \<times> world" where
  "get_openai_answer completion_create prompt max_answer_tokens w =
     (case completion_create prompt max_answer_tokens of
        Raises \<Rightarrow> (''An error occurred.'', print ''Error: '' w)
      | Returns response \<Rightarrow>
          (case resp_choices response of
             Some (choice # _) \<Rightarrow>
               (case choice of
                  None \<Rightarrow> (''An error occurred.'', print ''Error: '' w)
                | Some t \<Rightarrow> (strip t, w))
           | _ \<Rightarrow> (''No answer found in response.'', print no_choices_warning w)))"

definition answer_question_with_context ::
  "libraries \<Rightarrow> (string \<Rightarrow> embedding_response call) \<Rightarrow>
   (string \<Rightarrow> int \<Rightarrow> completion_response call) \<Rightarrow> tokenizer \<Rightarrow> string \<Rightarrow> nat \<Rightarrow>
   int \<Rightarrow> int \<Rightarrow> int \<Rightarrow> world \<Rightarrow> (error + string) \<times> world" where
  "answer_question_with_context libs embedding_create completion_create tokenizer question df
       max_prompt_tokens max_answer_tokens top_n w =
     (case get_relevant_rows libs embedding_create question df top_n w of
        (Inl e, w1) \<Rightarrow> (Inl e, w1)
      | (Inr relevant_rows, w1) \<Rightarrow>
          (case create_prompt tokenizer question (heap w1 ! relevant_rows) max_prompt_tokens of
             Inl e \<Rightarrow> (Inl e, w1)
           | Inr prompt \<Rightarrow>
               (let (a, w2) = get_openai_answer completion_create prompt max_answer_tokens w1
                in (Inr a, w2))))"

datatype stop = Exit | Uncaught error

fun interactive_loop ::
  "libraries \<Rightarrow> (string \<Rightarrow> embedding_response call) \<Rightarrow>
   (string \<Rightarrow> int \<Rightarrow> completion_response call) \<Rightarrow> tokenizer \<Rightarrow> nat \<Rightarrow> string list \<Rightarrow>
   world \<Rightarrow> stop \<times> world" where
  \<comment> \<open>The \<open>while True\<close> loop of the last cell, on the lines typed by the user: \<open>input\<close> prints
      its prompt and returns the next line, or raises EOFError when there is none. The loop
      ends by \<open>break\<close> or by an exception that nothing catches. The defaults 1500, 150 and 10
      are those of \<open>answer_question_with_context\<close>.\<close>
  "interactive_loop libs embedding_create completion_create tokenizer data [] w =
     (Uncaught EOFError, print ''Ask a question (or type 'exit' to quit): '' w)"
| "interactive_loop libs embedding_create completion_create tokenizer data (user_input # rest) w =
     (let w0 = print ''Ask a question (or type 'exit' to quit): '' w
      in if lower user_input = ''exit'' then (Exit, w0)
         else
           (let w1 = print (''You asked: '' @ user_input) w0
            in case answer_question_with_context libs embedding_create completion_create
                      tokenizer user_input data 1500 150 10 w1 of
                 (Inl e, w2) \<Rightarrow> (Uncaught e, w2)
               | (Inr a, w2) \<Rightarrow>
                   interactive_loop libs embedding_create completion_create tokenizer data rest
                     (print a w2)))"

subsection \<open>Persistence: \<open>save_embeddings\<close>, \<open>load_embeddings\<close>\<close>

























subsection \<open>Auxiliary definitions for the statements\<close>

definition prompt_text :: "string \<Rightarrow> string \<Rightarrow> string" where
  \<comment> \<open>the template with its two fields filled\<close>
  \<open>prompt_text context question =
    ''\<newline>    Answer the question based on the context below. If the question can't be answered based on the context, say "I don't know."\<newline>\<newline>    Context: ''
    @ context @ ''\<newline>\<newline>    ---\<newline>\<newline>    Question: '' @ question @ ''\<newline>\<newline>    Answer:\<newline>    ''\<close>

definition ntokens :: "tokenizer \<Rightarrow> string \<Rightarrow> int" where
  \<comment> \<open>\<open>len(tokenizer.encode(t))\<close> where \<open>encode\<close> returns\<close>
  "ntokens tokenizer t = (case tokenizer t of Inl e \<Rightarrow> 0 | Inr toks \<Rightarrow> int (length toks))"

definition special_tokens :: "string list" where
  \<comment> \<open>the special tokens of \<open>cl100k_base\<close>\<close>
  "special_tokens =
     [''<|endoftext|>'', ''<|fim_prefix|>'', ''<|fim_middle|>'', ''<|fim_suffix|>'',
      ''<|endofprompt|>'']"

definition byte_tokenizer :: tokenizer where
  \<comment> \<open>A tokenizer for evaluating the functions on concrete inputs: one token for each byte,
      and ValueError on a text that holds a special token, which is what \<open>encode\<close> of
      \<open>tiktoken\<close> does by default.\<close>
  "byte_tokenizer s =
     (if list_ex (\<lambda>sp. contains sp s) special_tokens then Inl ValueError
      else Inr (map of_char s))"

definition two_passages :: frame where
  "two_passages =
     \<lparr>rows = [\<lparr>r_text = ''a'', r_embeddings = []\<rparr>, \<lparr>r_text = ''b'', r_embeddings = []\<rparr>],
      distance = None\<rparr>"


definition is_date_line :: "(string \<Rightarrow> bool) \<Rightarrow> string \<Rightarrow> bool" where
  \<comment> \<open>the lines that the loop of \<open>load_dataset\<close> takes as the new prefix\<close>
  "is_date_line parse t = (\<not> contains dash t \<and> parse t)"

definition current_prefix :: "(string \<Rightarrow> bool) \<Rightarrow> string list \<Rightarrow> string" where
  \<comment> \<open>the most recent date line among the lines \<open>before\<close>, or the empty string\<close>
  "current_prefix parse before =
     (case filter (is_date_line parse) (rev before) of [] \<Rightarrow> [] | d # _ \<Rightarrow> d)"

definition emit :: "(string \<Rightarrow> bool) \<Rightarrow> string list \<Rightarrow> nat \<Rightarrow> string list" where
  \<comment> \<open>what line \<open>i\<close> of \<open>ls\<close> contributes to the result: one passage or none\<close>
  "emit parse ls i =
     (let t = ls ! i
      in if contains dash t then [t]
         else if parse t then []
         else [current_prefix parse (take i ls) @ dash @ t])"

definition january_only :: "string \<Rightarrow> bool" where
  \<comment> \<open>a date parser for evaluating \<open>load_dataset\<close> on concrete inputs: it returns on
      these two lines and raises on every other text\<close>
  "january_only t = (t = ''January 1'' \<or> t = ''January 2'')"

definition sample_extract :: string where
  "sample_extract =
     ''== Events ==\<newline>Hello\<newline>\<newline>January 1\<newline>World\<newline>January 2''
     @ dash @ ''Again''"



text \<open>Concrete libraries, frames and services, for evaluating the functions.\<close>

definition reference_libs :: "scipy_release \<Rightarrow> libraries" where
  \<comment> \<open>the idealised cosine distance, a stable sort, and a \<open>pandas\<close> that keeps NaN rows\<close>
  "reference_libs scipy =
     \<lparr>cosine_metric = cosine scipy, sort_values = sort_key (num \<circ> snd), keeps_nan_rows = True\<rparr>"

definition corpus :: frame where
  "corpus =
     \<lparr>rows = [\<lparr>r_text = ''north'', r_embeddings = [0, 1]\<rparr>,
              \<lparr>r_text = ''east'', r_embeddings = [1, 0]\<rparr>,
              \<lparr>r_text = ''north again'', r_embeddings = [0, 1]\<rparr>,
              \<lparr>r_text = ''west'', r_embeddings = [- 1, 0]\<rparr>],
      distance = None\<rparr>"


definition embedding_east :: "string \<Rightarrow> embedding_response call" where
  "embedding_east q = Returns \<lparr>resp_data = Some [Some [1, 0]]\<rparr>"

definition embedding_down :: "string \<Rightarrow> embedding_response call" where
  "embedding_down q = Raises"

definition completion_fixed :: "string \<Rightarrow> int \<Rightarrow> completion_response call" where
  "completion_fixed p n = Returns \<lparr>resp_choices = Some [Some '' An answer. '']\<rparr>"

definition completion_down :: "string \<Rightarrow> int \<Rightarrow> completion_response call" where
  "completion_down p n = Raises"

definition ranked_corpus :: frame where
  "ranked_corpus =
     \<lparr>rows = [\<lparr>r_text = ''east'', r_embeddings = [1, 0]\<rparr>,
              \<lparr>r_text = ''north'', r_embeddings = [0, 1]\<rparr>,
              \<lparr>r_text = ''north again'', r_embeddings = [0, 1]\<rparr>,
              \<lparr>r_text = ''west'', r_embeddings = [- 1, 0]\<rparr>],
      distance = Some [Num 0, Num 1, Num 1, Num 2]\<rparr>"




















section \<open>Properties\<close>

subsection \<open>Cosine distance\<close>

lemma dot_self_nonneg: "0 \<le> dot v v"
  unfolding dot_def by (induction v) auto

lemma dot_self_pos: "\<exists>x\<in>set v. x \<noteq> 0 \<Longrightarrow> 0 < dot v v"
proof (induction v)
  case Nil
  then show ?case by simp
next
  case (Cons a v)
  have nn: "0 \<le> dot v v" by (rule dot_self_nonneg)
  show ?case
  proof (cases "a = 0")
    case True
    with Cons have "0 < dot v v" by auto
    with True show ?thesis by (simp add: dot_def)
  next
    case False
    then have "0 < a * a" using zero_less_mult_iff [of a a] by (cases "0 < a") auto
    with nn show ?thesis by (simp add: dot_def add_pos_nonneg)
  qed
qed

lemma dot_zero_left: "\<forall>x\<in>set u. x = 0 \<Longrightarrow> length u = length v \<Longrightarrow> dot u v = 0"
  unfolding dot_def by (induction u v rule: list_induct2') auto

lemma dot_neg_right: "dot u (map uminus v) = - dot u v"
  unfolding dot_def by (induction u v rule: list_induct2') auto

lemma dot_neg_left: "dot (map uminus u) v = - dot u v"
  unfolding dot_def by (induction u v rule: list_induct2') auto

lemma cosine_self:
  assumes "\<exists>x\<in>set v. x \<noteq> 0"
  shows "cosine scipy v v = Inr (Num 0)"
proof -
  have p: "0 < dot v v" using assms by (rule dot_self_pos)
  then have "sqrt (dot v v * dot v v) = dot v v" by simp
  with p show ?thesis by (simp add: cosine_def Let_def split: scipy_release.split)
qed

lemma cosine_negation:
  assumes "\<exists>x\<in>set v. x \<noteq> 0"
  shows "cosine scipy v (map uminus v) = Inr (Num 2)"
proof -
  have p: "0 < dot v v" using assms by (rule dot_self_pos)
  then have "sqrt (dot v v * dot v v) = dot v v" by simp
  with p show ?thesis
    by (simp add: cosine_def Let_def dot_neg_right dot_neg_left split: scipy_release.split)
qed

lemma cosine_zero:
  assumes "length u = length v" "(\<forall>x\<in>set u. x = 0) \<or> (\<forall>x\<in>set v. x = 0)"
  shows "cosine scipy u v = Inr (case scipy of Unclamped \<Rightarrow> NaN | Clamped \<Rightarrow> Num 0)"
proof -
  have "dot u u = 0 \<or> dot v v = 0"
    using assms(2) dot_zero_left [of u u] dot_zero_left [of v v] by auto
  then show ?thesis
    using assms(1) by (auto simp add: cosine_def Let_def split: scipy_release.split)
qed

text \<open>
  Claim C6, as the code has it. Over the reals, the distance of a vector with a component
  other than zero to itself is 0 and to its negation is 2. When one of two vectors of the
  same length is the zero vector, nothing is raised and the distance is what the release of
  \<open>scipy\<close> makes of the quotient \<open>0.0 / 0.0\<close>: NaN, or 0 where the result is clamped. It is
  not 2.
\<close>

theorem cosine_values:
  "((\<exists>x\<in>set v. x \<noteq> 0) \<longrightarrow>
      cosine scipy v v = Inr (Num 0) \<and> cosine scipy v (map uminus v) = Inr (Num 2)) \<and>
   (length u = length z \<and> ((\<forall>x\<in>set u. x = 0) \<or> (\<forall>x\<in>set z. x = 0)) \<longrightarrow>
      cosine scipy u z = Inr (case scipy of Unclamped \<Rightarrow> NaN | Clamped \<Rightarrow> Num 0))"
  using cosine_self cosine_negation cosine_zero by blast

theorem cosine_values_witness:
  "cosine Unclamped [1, 0] [1, 0] = Inr (Num 0) \<and>
   cosine Unclamped [1, 0] [-1, 0] = Inr (Num 2) \<and>
   cosine Unclamped [0, 0] [1, 0] = Inr NaN"
  using cosine_values [of "[1, 0]" Unclamped "[0, 0]" "[1, 0]"] by simp

text \<open>
  The distance of the zero vector to \<open>(1, 0)\<close> is NaN, or 0 where the result is clamped, and
  in neither case the 2.0 of claim C6.
\<close>

theorem cosine_zero_vector_counterexample:
  "cosine Unclamped [0, 0] [1, 0] = Inr NaN \<and> cosine Unclamped [0, 0] [1, 0] \<noteq> Inr (Num 2) \<and>
   cosine Clamped [0, 0] [1, 0] = Inr (Num 0) \<and> cosine Clamped [0, 0] [1, 0] \<noteq> Inr (Num 2)"
  by (simp add: cosine_def dot_def Let_def)

subsection \<open>Prompt composer\<close>

lemma format_template: "format_str prompt_template [c, q] = Inr (prompt_text c q)"
  unfolding prompt_template_def prompt_text_def by simp

lemma pack_context_first_fit:
  assumes "\<forall>t\<in>set ts. \<exists>toks. tokenizer t = Inr toks"
  shows "\<exists>k\<le>length ts.
           pack_context tokenizer m cur ctx ts = Inr (ctx @ take k ts) \<and>
           (\<forall>j<k. cur + sum_list (map (ntokens tokenizer) (take (Suc j) ts)) \<le> m) \<and>
           (k < length ts \<longrightarrow> m < cur + sum_list (map (ntokens tokenizer) (take (Suc k) ts))) \<and>
           (\<forall>ts'. take (Suc k) ts' = take (Suc k) ts \<longrightarrow>
                  pack_context tokenizer m cur ctx ts' = Inr (ctx @ take k ts))"
  using assms
proof (induction ts arbitrary: cur ctx)
  case Nil
  show ?case by simp
next
  case (Cons t ts)
  from Cons.prems obtain toks where toks: "tokenizer t = Inr toks" by auto
  then have nt: "ntokens tokenizer t = int (length toks)" by (simp add: ntokens_def)
  show ?case
  proof (cases "cur + int (length toks) \<le> m")
    case True
    from Cons.prems have "\<forall>t\<in>set ts. \<exists>toks. tokenizer t = Inr toks" by simp
    from Cons.IH [OF this, of "cur + int (length toks)" "ctx @ [t]"]
    obtain k where k: "k \<le> length ts"
      "pack_context tokenizer m (cur + int (length toks)) (ctx @ [t]) ts = Inr ((ctx @ [t]) @ take k ts)"
      "\<forall>j<k. cur + int (length toks) + sum_list (map (ntokens tokenizer) (take (Suc j) ts)) \<le> m"
      "k < length ts \<longrightarrow> m < cur + int (length toks) + sum_list (map (ntokens tokenizer) (take (Suc k) ts))"
      "\<forall>ts'. take (Suc k) ts' = take (Suc k) ts \<longrightarrow>
          pack_context tokenizer m (cur + int (length toks)) (ctx @ [t]) ts' = Inr ((ctx @ [t]) @ take k ts)"
      by blast
    have a: "pack_context tokenizer m cur ctx (t # ts) = Inr (ctx @ take (Suc k) (t # ts))"
      using toks True k(2) by (simp add: Let_def)
    have b: "\<forall>j<Suc k. cur + sum_list (map (ntokens tokenizer) (take (Suc j) (t # ts))) \<le> m"
    proof (intro allI impI)
      fix j assume "j < Suc k"
      show "cur + sum_list (map (ntokens tokenizer) (take (Suc j) (t # ts))) \<le> m"
      proof (cases j)
        case 0
        then show ?thesis using True nt by simp
      next
        case (Suc j')
        with \<open>j < Suc k\<close> have "j' < k" by simp
        with k(3) have "cur + int (length toks) + sum_list (map (ntokens tokenizer) (take (Suc j') ts)) \<le> m" by blast
        then show ?thesis using Suc nt by simp
      qed
    qed
    have c: "Suc k < length (t # ts) \<longrightarrow> m < cur + sum_list (map (ntokens tokenizer) (take (Suc (Suc k)) (t # ts)))"
      using k(4) nt by (simp add: add.assoc)
    have d: "\<forall>ts'. take (Suc (Suc k)) ts' = take (Suc (Suc k)) (t # ts) \<longrightarrow>
                  pack_context tokenizer m cur ctx ts' = Inr (ctx @ take (Suc k) (t # ts))"
    proof (intro allI impI)
      fix ts' assume e: "take (Suc (Suc k)) ts' = take (Suc (Suc k)) (t # ts)"
      then obtain ts0 where ts0: "ts' = t # ts0" by (cases ts') auto
      with e have "take (Suc k) ts0 = take (Suc k) ts" by simp
      with k(5) have "pack_context tokenizer m (cur + int (length toks)) (ctx @ [t]) ts0 = Inr ((ctx @ [t]) @ take k ts)" by blast
      then show "pack_context tokenizer m cur ctx ts' = Inr (ctx @ take (Suc k) (t # ts))"
        using ts0 toks True by (simp add: Let_def)
    qed
    from k(1) a b c d show ?thesis by (intro exI [of _ "Suc k"]) simp
  next
    case False
    have a: "pack_context tokenizer m cur ctx (t # ts) = Inr (ctx @ take 0 (t # ts))"
      using toks False by (simp add: Let_def)
    have c: "m < cur + sum_list (map (ntokens tokenizer) (take (Suc 0) (t # ts)))"
      using False nt by simp
    have d: "\<forall>ts'. take (Suc 0) ts' = take (Suc 0) (t # ts) \<longrightarrow>
                  pack_context tokenizer m cur ctx ts' = Inr (ctx @ take 0 (t # ts))"
    proof (intro allI impI)
      fix ts' assume e: "take (Suc 0) ts' = take (Suc 0) (t # ts)"
      then obtain ts0 where ts0: "ts' = t # ts0" by (cases ts') auto
      then show "pack_context tokenizer m cur ctx ts' = Inr (ctx @ take 0 (t # ts))"
        using toks False by (simp add: Let_def)
    qed
    from a c d show ?thesis by (intro exI [of _ 0]) simp
  qed
qed


lemma startswith_iff: "startswith s p \<longleftrightarrow> (\<exists>b. s = p @ b)"
  unfolding startswith_def by (metis append_eq_conv_conj append_take_drop_id)

lemma contains_iff: "contains sub s \<longleftrightarrow> (\<exists>a b. s = a @ sub @ b)"
proof (induction s)
  case Nil
  show ?case by auto
next
  case (Cons c s)
  show ?case
  proof
    assume "contains sub (c # s)"
    then consider "startswith (c # s) sub" | "contains sub s" by auto
    then show "\<exists>a b. c # s = a @ sub @ b"
    proof cases
      case 1
      then obtain b where "c # s = sub @ b" by (auto simp: startswith_iff)
      then have "c # s = [] @ sub @ b" by simp
      then show ?thesis by blast
    next
      case 2
      with Cons obtain a b where "s = a @ sub @ b" by blast
      then have "c # s = (c # a) @ sub @ b" by simp
      then show ?thesis by blast
    qed
  next
    assume "\<exists>a b. c # s = a @ sub @ b"
    then obtain a b where ab: "c # s = a @ sub @ b" by blast
    show "contains sub (c # s)"
    proof (cases a)
      case Nil
      with ab have "startswith (c # s) sub" by (auto simp: startswith_iff)
      then show ?thesis by simp
    next
      case (Cons c' a')
      with ab have "s = a' @ sub @ b" by simp
      with Cons.IH have "contains sub s" by blast
      then show ?thesis by simp
    qed
  qed
qed

lemma contains_inner: "contains q (x @ c @ y @ q @ z)"
proof -
  have "x @ c @ y @ q @ z = (x @ c @ y) @ q @ z" by simp
  then show ?thesis unfolding contains_iff by blast
qed

lemma contains_question: "contains q (prompt_text c q)"
  unfolding prompt_text_def by (rule contains_inner)

lemma create_prompt_pack:
  assumes "tokenizer prompt_template = Inr tt" "tokenizer question = Inr tq"
    and "pack_context tokenizer m (int (length tt) + int (length tq)) [] (map r_text (rows df)) = Inr context"
  shows "create_prompt tokenizer question df m = Inr (prompt_text (join context_separator context) question)"
  using assms by (simp add: create_prompt_def Let_def format_template)


text \<open>
  Claim C4, as the code has it. Where \<open>encode\<close> returns on the template, the question and
  the passages, the prompt contains the question, and when the tokens of the template and
  of the question fit the budget, so does the total that \<open>create_prompt\<close> accounts for: the
  tokens of the template, of the question and of each selected passage, each encoded alone.
  The separators joining the passages are not counted.
\<close>

theorem create_prompt_question_and_accounting:
  assumes "tokenizer prompt_template = Inr tt" and "tokenizer question = Inr tq"
    and "\<forall>t\<in>set (map r_text (rows df)). \<exists>toks. tokenizer t = Inr toks"
  shows "\<exists>context.
           create_prompt tokenizer question df m =
             Inr (prompt_text (join context_separator context) question) \<and>
           contains question (prompt_text (join context_separator context) question) \<and>
           (int (length tt) + int (length tq) \<le> m \<longrightarrow>
              int (length tt) + int (length tq) + sum_list (map (ntokens tokenizer) context) \<le> m)"
proof -
  let ?ts = "map r_text (rows df)"
  let ?b = "int (length tt) + int (length tq)"
  from pack_context_first_fit [OF assms(3), of m ?b "[]"]
  obtain k where k: "k \<le> length ?ts"
    "pack_context tokenizer m ?b [] ?ts = Inr ([] @ take k ?ts)"
    "\<forall>j<k. ?b + sum_list (map (ntokens tokenizer) (take (Suc j) ?ts)) \<le> m"
    by blast
  have p: "create_prompt tokenizer question df m =
             Inr (prompt_text (join context_separator (take k ?ts)) question)"
    using create_prompt_pack [OF assms(1,2)] k(2) by simp
  have a: "?b \<le> m \<longrightarrow> ?b + sum_list (map (ntokens tokenizer) (take k ?ts)) \<le> m"
  proof (cases k)
    case 0
    then show ?thesis by simp
  next
    case (Suc j)
    with k(3) show ?thesis by simp
  qed
  from p a contains_question show ?thesis by blast
qed

text \<open>
  Claim C8, as the code has it. \<open>create_prompt\<close> returns whenever \<open>encode\<close> returns on the
  template, the question and the passages. When \<open>max_token_count\<close> is smaller than the
  tokens of the template and of the question, and \<open>encode\<close> returns on these and on the
  first passage, the result is the template with an empty context and the question.
\<close>

theorem create_prompt_returns:
  "((\<forall>t\<in>set (prompt_template # question # map r_text (rows df)). \<exists>toks. tokenizer t = Inr toks) \<longrightarrow>
      (\<exists>p. create_prompt tokenizer question df m = Inr p)) \<and>
   (tokenizer prompt_template = Inr tt \<and> tokenizer question = Inr tq \<and>
    m < int (length tt) + int (length tq) \<and>
    (\<forall>t. take 1 (map r_text (rows df)) = [t] \<longrightarrow> (\<exists>toks. tokenizer t = Inr toks)) \<longrightarrow>
      create_prompt tokenizer question df m = Inr (prompt_text [] question))"
proof (intro conjI impI)
  assume a: "\<forall>t\<in>set (prompt_template # question # map r_text (rows df)). \<exists>toks. tokenizer t = Inr toks"
  then obtain tt' tq' where t: "tokenizer prompt_template = Inr tt'" "tokenizer question = Inr tq'"
    by auto
  from a have "\<forall>t\<in>set (map r_text (rows df)). \<exists>toks. tokenizer t = Inr toks" by simp
  from pack_context_first_fit [OF this, of m "int (length tt') + int (length tq')" "[]"]
  obtain c where "pack_context tokenizer m (int (length tt') + int (length tq')) []
                    (map r_text (rows df)) = Inr c" by blast
  from create_prompt_pack [OF t this] show "\<exists>p. create_prompt tokenizer question df m = Inr p"
    by blast
next
  assume a: "tokenizer prompt_template = Inr tt \<and> tokenizer question = Inr tq \<and>
    m < int (length tt) + int (length tq) \<and>
    (\<forall>t. take 1 (map r_text (rows df)) = [t] \<longrightarrow> (\<exists>toks. tokenizer t = Inr toks))"
  have "pack_context tokenizer m (int (length tt) + int (length tq)) [] (map r_text (rows df)) = Inr []"
  proof (cases "map r_text (rows df)")
    case Nil
    then show ?thesis by simp
  next
    case (Cons t ts)
    with a obtain toks where "tokenizer t = Inr toks" by auto
    with a Cons show ?thesis by (simp add: Let_def)
  qed
  with a create_prompt_pack [of tokenizer tt question tq m df "[]"]
  show "create_prompt tokenizer question df m = Inr (prompt_text [] question)" by simp
qed

lemma contains_subset: "contains sub s \<Longrightarrow> set sub \<subseteq> set s"
  by (auto simp: contains_iff)

lemma byte_tokenizer_plain:
  "CHR ''|'' \<notin> set s \<Longrightarrow> byte_tokenizer s = Inr (map of_char s)"
proof -
  assume a: "CHR ''|'' \<notin> set s"
  have "\<not> contains sp s" if "sp \<in> set special_tokens" for sp
  proof
    assume "contains sp s"
    then have "set sp \<subseteq> set s" by (rule contains_subset)
    moreover from that have "CHR ''|'' \<in> set sp" by (auto simp: special_tokens_def)
    ultimately show False using a by blast
  qed
  then show ?thesis by (auto simp: byte_tokenizer_def list_ex_iff)
qed

lemma byte_tokenizer_template: "byte_tokenizer prompt_template = Inr (map of_char prompt_template)"
  by (rule byte_tokenizer_plain) (simp add: prompt_template_def)

lemma length_template: "length prompt_template = 190"
  by (simp add: prompt_template_def)



theorem create_prompt_question_and_accounting_witness:
  "\<exists>context.
     create_prompt byte_tokenizer ''q'' two_passages 193 =
       Inr (prompt_text (join context_separator context) ''q'') \<and>
     contains ''q'' (prompt_text (join context_separator context) ''q'') \<and>
     191 + sum_list (map (ntokens byte_tokenizer) context) \<le> 193"
proof -
  have h2: "byte_tokenizer ''q'' = Inr (map of_char ''q'')"
    by (rule byte_tokenizer_plain) simp
  have h3: "\<forall>t\<in>set (map r_text (rows two_passages)). \<exists>toks. byte_tokenizer t = Inr toks"
    by (simp add: two_passages_def byte_tokenizer_plain)
  from create_prompt_question_and_accounting [OF byte_tokenizer_template h2 h3, of 193]
  show ?thesis by (simp add: length_template)
qed

text \<open>
  With one token for each byte and a budget of 193, the template and the question take 191
  tokens and the passages \<open>a\<close> and \<open>b\<close> are both selected, but the returned prompt has 196
  tokens: the separator between the passages was never counted.
\<close>

theorem create_prompt_over_budget_counterexample:
  "ntokens byte_tokenizer prompt_template + ntokens byte_tokenizer ''q'' \<le> 193 \<and>
   create_prompt byte_tokenizer ''q'' two_passages 193 =
     Inr (prompt_text ''a\<newline>\<newline>###\<newline>\<newline>b'' ''q'') \<and>
   ntokens byte_tokenizer (prompt_text ''a\<newline>\<newline>###\<newline>\<newline>b'' ''q'') = 196"
proof -
  have h2: "byte_tokenizer ''q'' = Inr (map of_char ''q'')"
    by (rule byte_tokenizer_plain) simp
  have a: "ntokens byte_tokenizer prompt_template + ntokens byte_tokenizer ''q'' \<le> 193"
    by (simp add: ntokens_def byte_tokenizer_template h2 length_template)
  have "pack_context byte_tokenizer 193
          (int (length (map of_char prompt_template :: nat list)) + int (length (map of_char ''q'' :: nat list)))
          [] (map r_text (rows two_passages)) = Inr [''a'', ''b'']"
    by (simp add: two_passages_def byte_tokenizer_plain length_template)
  from create_prompt_pack [OF byte_tokenizer_template h2 this]
  have b: "create_prompt byte_tokenizer ''q'' two_passages 193 =
     Inr (prompt_text ''a\<newline>\<newline>###\<newline>\<newline>b'' ''q'')"
    by (simp add: context_separator_def)
  have "byte_tokenizer (prompt_text ''a\<newline>\<newline>###\<newline>\<newline>b'' ''q'') =
          Inr (map of_char (prompt_text ''a\<newline>\<newline>###\<newline>\<newline>b'' ''q''))"
    by (rule byte_tokenizer_plain) (simp add: prompt_text_def)
  then have c: "ntokens byte_tokenizer (prompt_text ''a\<newline>\<newline>###\<newline>\<newline>b'' ''q'') = 196"
    by (simp add: ntokens_def prompt_text_def)
  from a b c show ?thesis by blast
qed

theorem create_prompt_returns_witness:
  "(\<exists>p. create_prompt byte_tokenizer ''q'' two_passages 193 = Inr p) \<and>
   create_prompt byte_tokenizer ''q'' two_passages 5 = Inr (prompt_text [] ''q'')"
proof -
  have h2: "byte_tokenizer ''q'' = Inr (map of_char ''q'')"
    by (rule byte_tokenizer_plain) simp
  have h3: "\<forall>t\<in>set (prompt_template # ''q'' # map r_text (rows two_passages)). \<exists>toks. byte_tokenizer t = Inr toks"
    using byte_tokenizer_template by (simp add: two_passages_def byte_tokenizer_plain)
  have h4: "\<forall>t. take 1 (map r_text (rows two_passages)) = [t] \<longrightarrow> (\<exists>toks. byte_tokenizer t = Inr toks)"
    by (simp add: two_passages_def byte_tokenizer_plain)
  have h5: "(5::int) < int (length (map of_char prompt_template :: nat list)) + int (length (map of_char ''q'' :: nat list))"
    by (simp add: length_template)
  from create_prompt_returns [of "''q''" two_passages byte_tokenizer 193] h3
  have a: "\<exists>p. create_prompt byte_tokenizer ''q'' two_passages 193 = Inr p" by blast
  from create_prompt_returns [of "''q''" two_passages byte_tokenizer 5 "map of_char prompt_template" "map of_char ''q''"]
    byte_tokenizer_template h2 h4 h5
  have "create_prompt byte_tokenizer ''q'' two_passages 5 = Inr (prompt_text [] ''q'')" by blast
  with a show ?thesis by blast
qed

text \<open>
  A question that holds a special token makes \<open>encode\<close> raise, and \<open>create_prompt\<close> with
  it: it does not return for every question.
\<close>

theorem create_prompt_raises_counterexample:
  "create_prompt byte_tokenizer ''<|endoftext|>'' \<lparr>rows = [], distance = None\<rparr> 1500 = Inl ValueError"
proof -
  have "byte_tokenizer ''<|endoftext|>'' = Inl ValueError"
    by (simp add: byte_tokenizer_def special_tokens_def startswith_def)
  then show ?thesis by (simp add: create_prompt_def byte_tokenizer_template)
qed

subsection \<open>Corpus loader\<close>

lemma contains_dash_prefixed: "contains dash (p @ dash @ t)"
  unfolding contains_iff by blast

lemma current_prefix_snoc:
  "current_prefix parse (before @ [t]) =
     (if is_date_line parse t then t else current_prefix parse before)"
  by (simp add: current_prefix_def)

lemma upt_0_Suc: "[0..<Suc n] = 0 # map Suc [0..<n]"
proof -
  have "[0..<Suc n] = 0 # [Suc 0..<Suc n]" by (rule upt_conv_Cons) simp
  then show ?thesis by (simp only: map_Suc_upt)
qed

lemma emit_here: "emit parse (before @ t # ts) (length before) =
    (if contains dash t then [t] else if parse t then [] else [current_prefix parse before @ dash @ t])"
  by (simp add: emit_def)

lemma prefix_rows_emit:
  "filter (contains dash) (prefix_rows parse (current_prefix parse before) ts) =
     concat (map (\<lambda>i. emit parse (before @ ts) (length before + i)) [0..<length ts])"
proof (induction ts arbitrary: before)
  case Nil
  show ?case by simp
next
  case (Cons t ts)
  have shift: "map (\<lambda>i. emit parse (before @ t # ts) (length before + i)) (map Suc [0..<length ts])
        = map (\<lambda>i. emit parse ((before @ [t]) @ ts) (length (before @ [t]) + i)) [0..<length ts]"
    by simp
  have rest: "filter (contains dash) (prefix_rows parse (current_prefix parse (before @ [t])) ts) =
     concat (map (\<lambda>i. emit parse (before @ t # ts) (length before + i)) (map Suc [0..<length ts]))"
    unfolding shift by (rule Cons.IH)
  have "length (t # ts) = Suc (length ts)" by simp
  then have split: "concat (map (\<lambda>i. emit parse (before @ t # ts) (length before + i)) [0..<length (t # ts)])
     = emit parse (before @ t # ts) (length before) @
       concat (map (\<lambda>i. emit parse (before @ t # ts) (length before + i)) (map Suc [0..<length ts]))"
    by (simp only: upt_0_Suc list.map concat.simps add_0_right)
  show ?case
    unfolding split rest [symmetric] emit_here
    by (simp add: current_prefix_snoc is_date_line_def contains_dash_prefixed)
qed

text \<open>
  Claim C5, as the code has it. \<open>load_dataset\<close> goes through the lines of the page that are
  not empty and do not start with \<open>==\<close>, in order. A line that contains the separator is
  returned as it is. A line without the separator on which the date parser returns is not
  returned: it becomes the current prefix. Every other line is returned with the current
  prefix and the separator in front; the current prefix is the most recent earlier date
  line, and the empty string when there is none, so that such a line is kept.
\<close>

theorem load_dataset_passages:
  "load_dataset parse extract =
     concat (map (emit parse (filter keep_line (split_lines extract)))
                 [0..<length (filter keep_line (split_lines extract))])"
proof -
  have "current_prefix parse [] = []" by (simp add: current_prefix_def)
  with prefix_rows_emit [of parse "[]" "filter keep_line (split_lines extract)"]
  show ?thesis by (simp add: load_dataset_def Let_def)
qed

lemma load_sample:
  "load_dataset january_only sample_extract =
     [dash @ ''Hello'', ''January 1'' @ dash @ ''World'', ''January 2'' @ dash @ ''Again'']"
  by code_simp

theorem load_dataset_passages_witness:
  "concat (map (emit january_only (filter keep_line (split_lines sample_extract)))
               [0..<length (filter keep_line (split_lines sample_extract))]) =
     [dash @ ''Hello'', ''January 1'' @ dash @ ''World'', ''January 2'' @ dash @ ''Again'']"
  using load_dataset_passages [of january_only sample_extract] load_sample by simp

text \<open>
  The line \<open>Hello\<close> comes before every date line: it is not dropped, as claim C5 has it, but
  returned with the separator alone in front.
\<close>

theorem load_dataset_keeps_undated_counterexample:
  "load_dataset january_only ''Hello\<newline>January 1\<newline>World'' =
     [dash @ ''Hello'', ''January 1'' @ dash @ ''World''] \<and>
   \<not> january_only ''Hello''"
  by code_simp

subsection \<open>Ranker\<close>
















lemma get_relevant_rows_ranked_eq:
  assumes "embedding_create question = Returns resp"
    and "resp_data resp = Some (Some qe # items)"
    and "distances_from_embeddings (cosine_metric libs) qe (map r_embeddings (rows (heap w ! df))) = Inr ds"
  shows "get_relevant_rows libs embedding_create question df top_n w =
           (Inr (Suc (length (heap w))),
            w\<lparr>heap := heap w @
                 [(heap w ! df)\<lparr>distance := Some ds\<rparr>,
                  \<lparr>rows = map fst (nsmallest_rows libs top_n (zip (rows (heap w ! df)) ds)),
                   distance = Some (map snd (nsmallest_rows libs top_n (zip (rows (heap w ! df)) ds)))\<rparr>]\<rparr>)"
  using assms
  by (simp add: get_relevant_rows_def copy_def alloc_def set_distance_def nsmallest_def Let_def)

lemma get_relevant_rows_fallback_eq:
  assumes "embedding_create question = Returns resp"
    and "resp_data resp = None \<or> resp_data resp = Some []"
  shows "get_relevant_rows libs embedding_create question df top_n w =
           (Inr (length (heap w)),
            w\<lparr>heap := heap w @ [head top_n (heap w ! df)], out := out w @ [no_data_warning]\<rparr>)"
  using assms
  by (auto simp add: get_relevant_rows_def alloc_def print_def Let_def)

lemma get_relevant_rows_heap:
  assumes "get_relevant_rows libs embedding_create question df top_n w = (r, w')"
  shows "\<exists>fs. heap w' = heap w @ fs"
  using assms
  by (auto simp add: get_relevant_rows_def copy_def alloc_def set_distance_def print_def
        nsmallest_def Let_def
      split: call.splits option.splits list.splits sum.splits prod.splits)

text \<open>
  Claim C10. Whatever the embedding service does, every frame that exists before the call
  to \<open>get_relevant_rows\<close>, the input frame among them, is the same after it: the distances
  go to a copy, and the result is a new frame.
\<close>

theorem get_relevant_rows_keeps_input:
  "\<forall>a<length (heap w).
     heap (snd (get_relevant_rows libs embedding_create question df top_n w)) ! a = heap w ! a"
proof (intro allI impI)
  fix a assume a: "a < length (heap w)"
  obtain r w' where e: "get_relevant_rows libs embedding_create question df top_n w = (r, w')"
    by (cases "get_relevant_rows libs embedding_create question df top_n w")
  from get_relevant_rows_heap [OF e] obtain fs where "heap w' = heap w @ fs" by blast
  with a e
  show "heap (snd (get_relevant_rows libs embedding_create question df top_n w)) ! a =
        heap w ! a"
    by (simp add: nth_append)
qed


lemma cosine_east_north: "cosine scipy [1, 0] [0, 1] = Inr (Num 1)"
  by (simp add: cosine_def dot_def Let_def split: scipy_release.split)

lemma cosine_east_east: "cosine scipy [1, 0] [1, 0] = Inr (Num 0)"
  by (simp add: cosine_def dot_def Let_def split: scipy_release.split)

lemma cosine_east_west: "cosine scipy [1, 0] [- 1, 0] = Inr (Num 2)"
  by (simp add: cosine_def dot_def Let_def split: scipy_release.split)


lemma ranked_example:
  "get_relevant_rows (reference_libs scipy) embedding_east ''q'' 0 3
     \<lparr>heap = [corpus], out = []\<rparr> =
     (Inr 2,
      \<lparr>heap = [corpus,
               corpus\<lparr>distance := Some [Num 1, Num 0, Num 1, Num 2]\<rparr>,
               \<lparr>rows = [\<lparr>r_text = ''east'', r_embeddings = [1, 0]\<rparr>,
                        \<lparr>r_text = ''north'', r_embeddings = [0, 1]\<rparr>,
                        \<lparr>r_text = ''north again'', r_embeddings = [0, 1]\<rparr>],
                distance = Some [Num 0, Num 1, Num 1]\<rparr>],
       out = []\<rparr>)"
proof -
  have d: "distances_from_embeddings (cosine_metric (reference_libs scipy)) [1, 0]
             (map r_embeddings (rows (heap \<lparr>heap = [corpus], out = []\<rparr> ! 0))) =
           Inr [Num 1, Num 0, Num 1, Num 2]"
    by (simp add: corpus_def reference_libs_def cosine_east_north cosine_east_east cosine_east_west)
  have e: "embedding_east ''q'' = Returns \<lparr>resp_data = Some [Some [1, 0]]\<rparr>"
    by (simp add: embedding_east_def)
  have r: "resp_data \<lparr>resp_data = Some [Some [1, 0]]\<rparr> = Some (Some [1, 0] # [])" by simp
  show ?thesis
    unfolding get_relevant_rows_ranked_eq
      [where embedding_create = embedding_east and question = "''q''", OF e r d]
    by (simp add: corpus_def nsmallest_rows_def reference_libs_def is_nan_def Let_def)
qed



theorem get_relevant_rows_keeps_input_witness:
  "heap (snd (get_relevant_rows (reference_libs Unclamped) embedding_east ''q'' 0 3
                \<lparr>heap = [corpus], out = []\<rparr>)) ! 0 = corpus"
  using get_relevant_rows_keeps_input
          [of "\<lparr>heap = [corpus], out = []\<rparr>" "reference_libs Unclamped" embedding_east
              "''q''" 0 3]
  by simp

subsection \<open>Fallback, answers and the interactive loop\<close>

lemma py_head_nonneg: "0 \<le> n \<Longrightarrow> py_head n = take (nat n)"
  by (auto simp: py_head_def fun_eq_iff)

lemma get_relevant_rows_fallback:
  assumes "embedding_create question = Returns resp"
    and "resp_data resp = None \<or> resp_data resp = Some []"
    and "0 \<le> top_n"
  shows "\<exists>r w'. get_relevant_rows libs embedding_create question df top_n w = (Inr r, w') \<and>
           rows (heap w' ! r) = take (nat top_n) (rows (heap w ! df)) \<and>
           distance (heap w' ! r) = map_option (take (nat top_n)) (distance (heap w ! df)) \<and>
           out w' = out w @ [no_data_warning]"
  unfolding get_relevant_rows_fallback_eq
    [where embedding_create = embedding_create and question = question, OF assms(1,2)]
  using assms(3) by (simp add: head_def py_head_nonneg)

lemma get_relevant_rows_no_embedding_key:
  assumes "embedding_create question = Returns resp"
    and "resp_data resp = Some (None # items)"
  shows "get_relevant_rows libs embedding_create question df top_n w = (Inl KeyError, w)"
  using assms by (simp add: get_relevant_rows_def)

text \<open>
  Claim C2 at a failing input. When the embedding service raises, \<open>get_relevant_rows\<close> does
  not return the first passages: nothing catches the exception. The fallback is taken only
  for a response without a non-empty \<open>data\<close> (lemma \<open>get_relevant_rows_fallback\<close>).
\<close>

theorem get_relevant_rows_provider_raises:
  "get_relevant_rows (reference_libs Unclamped) embedding_down ''q'' 0 3
     \<lparr>heap = [corpus], out = []\<rparr> =
     (Inl OpenAIError, \<lparr>heap = [corpus], out = []\<rparr>)"
  by (simp add: get_relevant_rows_def embedding_down_def)

lemma get_openai_answer_raises:
  "completion_create prompt n = Raises \<Longrightarrow>
   fst (get_openai_answer completion_create prompt n w) = ''An error occurred.''"
  by (simp add: get_openai_answer_def)

lemma get_openai_answer_no_choices:
  "completion_create prompt n = Returns resp \<Longrightarrow>
   resp_choices resp = None \<or> resp_choices resp = Some [] \<Longrightarrow>
   fst (get_openai_answer completion_create prompt n w) = ''No answer found in response.''"
  by (auto simp add: get_openai_answer_def)

lemma get_openai_answer_heap:
  "heap (snd (get_openai_answer completion_create prompt n w)) = heap w"
  by (simp add: get_openai_answer_def print_def
      split: call.splits option.splits list.splits)

lemma answer_returns:
  assumes "get_relevant_rows libs embedding_create question df top_n w = (Inr r, w1)"
    and "create_prompt tokenizer question (heap w1 ! r) max_prompt_tokens = Inr prompt"
  shows "\<exists>a w2. answer_question_with_context libs embedding_create completion_create tokenizer
                   question df max_prompt_tokens max_answer_tokens top_n w = (Inr a, w2)"
  using assms by (simp add: answer_question_with_context_def split: prod.splits)


lemma create_prompt_defined:
  assumes "\<forall>t\<in>set (prompt_template # question # map r_text (rows df)). \<exists>toks. tokenizer t = Inr toks"
  shows "\<exists>p. create_prompt tokenizer question df m = Inr p"
proof -
  from assms obtain tt tq where t: "tokenizer prompt_template = Inr tt" "tokenizer question = Inr tq"
    by auto
  from assms have "\<forall>t\<in>set (map r_text (rows df)). \<exists>toks. tokenizer t = Inr toks" by simp
  from pack_context_first_fit [OF this, of m "int (length tt) + int (length tq)" "[]"]
  obtain c where "pack_context tokenizer m (int (length tt) + int (length tq)) []
                    (map r_text (rows df)) = Inr c" by blast
  from create_prompt_pack [OF t this] show ?thesis by blast
qed

lemma ranked_all_example:
  "get_relevant_rows (reference_libs scipy) embedding_east q 0 10
     \<lparr>heap = [corpus], out = lines\<rparr> =
     (Inr 2,
      \<lparr>heap = [corpus, corpus\<lparr>distance := Some [Num 1, Num 0, Num 1, Num 2]\<rparr>, ranked_corpus],
       out = lines\<rparr>)"
proof -
  have d: "distances_from_embeddings (cosine_metric (reference_libs scipy)) [1, 0]
             (map r_embeddings (rows (heap \<lparr>heap = [corpus], out = lines\<rparr> ! 0))) =
           Inr [Num 1, Num 0, Num 1, Num 2]"
    by (simp add: corpus_def reference_libs_def cosine_east_north cosine_east_east cosine_east_west)
  have e: "embedding_east q = Returns \<lparr>resp_data = Some [Some [1, 0]]\<rparr>"
    by (simp add: embedding_east_def)
  have r: "resp_data \<lparr>resp_data = Some [Some [1, 0]]\<rparr> = Some (Some [1, 0] # [])" by simp
  show ?thesis
    unfolding get_relevant_rows_ranked_eq
      [where embedding_create = embedding_east and question = q, OF e r d]
    by (simp add: corpus_def ranked_corpus_def nsmallest_rows_def reference_libs_def is_nan_def Let_def)
qed

lemma answer_completion_down_example:
  "answer_question_with_context (reference_libs scipy) embedding_east completion_down
       byte_tokenizer ''first'' 0 1500 150 10 \<lparr>heap = [corpus], out = lines\<rparr> =
     (Inr ''An error occurred.'',
      \<lparr>heap = [corpus, corpus\<lparr>distance := Some [Num 1, Num 0, Num 1, Num 2]\<rparr>, ranked_corpus],
       out = lines @ [''Error: '']\<rparr>)"
proof -
  have "\<forall>t\<in>set (prompt_template # ''first'' # map r_text (rows ranked_corpus)).
          \<exists>toks. byte_tokenizer t = Inr toks"
    using byte_tokenizer_template by (simp add: ranked_corpus_def byte_tokenizer_plain)
  from create_prompt_defined [OF this, of 1500]
  obtain p where p: "create_prompt byte_tokenizer ''first'' ranked_corpus 1500 = Inr p" by blast
  show ?thesis
    by (simp add: answer_question_with_context_def ranked_all_example p get_openai_answer_def
          completion_down_def print_def)
qed

lemma lower_Exit: "lower ''Exit'' = ''exit''"
  by code_simp

lemma lower_first: "lower ''first'' \<noteq> ''exit''"
  by (simp add: lower_def)

lemma interactive_loop_completion_down_example:
  "interactive_loop (reference_libs scipy) embedding_east completion_down byte_tokenizer 0
     [''first'', ''Exit''] \<lparr>heap = [corpus], out = []\<rparr> =
   (Exit,
    \<lparr>heap = [corpus, corpus\<lparr>distance := Some [Num 1, Num 0, Num 1, Num 2]\<rparr>, ranked_corpus],
     out = [''Ask a question (or type 'exit' to quit): '', ''You asked: first'', ''Error: '',
            ''An error occurred.'', ''Ask a question (or type 'exit' to quit): '']\<rparr>)"
  by (simp add: answer_completion_down_example print_def lower_Exit lower_first Let_def)

text \<open>
  Claim C7 at a failing input. When the embedding service raises on the first question, the
  loop ends with the exception: no answer is printed and the second question is never
  read. A failure of the completion service does give the sentinel answers, and the loop
  goes on (lemmas \<open>get_openai_answer_raises\<close>, \<open>get_openai_answer_no_choices\<close>,
  \<open>answer_returns\<close> and \<open>interactive_loop_completion_down_example\<close>).
\<close>

theorem interactive_loop_provider_raises:
  "interactive_loop (reference_libs Unclamped) embedding_down completion_fixed byte_tokenizer 0
     [''first'', ''second'', ''exit''] \<lparr>heap = [corpus], out = []\<rparr> =
   (Uncaught OpenAIError,
    \<lparr>heap = [corpus],
     out = [''Ask a question (or type 'exit' to quit): '', ''You asked: first'']\<rparr>)"
  by (simp add: answer_question_with_context_def get_relevant_rows_def embedding_down_def
        print_def lower_def lower_char_def Let_def)

subsection \<open>Persistence\<close>

















end
